theory Spec2Isabelle
  imports Complex_Main
begin

section \<open>Numbers and vectors\<close>

text \<open>
  The simulation computes with JavaScript numbers. They are idealised as reals: rounding is
  not modelled. The one non-finite effect that the rules can reach, a division of a vector by
  a zero scalar, is made an explicit outcome (\<open>NonFiniteVector\<close>) where the source performs
  such a division unguarded.

  \<open>vector3\<close> is three.js's \<open>Vector3\<close>; the operations below are the methods the
  repository calls, with the library's documented behaviour: \<open>length\<close> is
  \<open>sqrt (x*x + y*y + z*z)\<close>, \<open>normalize\<close> is \<open>divideScalar (length () || 1)\<close> (a zero vector
  stays zero), \<open>divideScalar s\<close> is \<open>multiplyScalar (1 / s)\<close>, \<open>setLength l\<close> is
  \<open>normalize ().multiplyScalar l\<close>.
\<close>

datatype vector3 = Vector3 (vx: real) (vy: real) (vz: real)

datatype error = WorldNotFound | NonFiniteVector

definition v3_zero :: vector3 where
  "v3_zero = Vector3 0 0 0"

definition v3_add :: "vector3 \<Rightarrow> vector3 \<Rightarrow> vector3" where
  "v3_add a b = Vector3 (vx a + vx b) (vy a + vy b) (vz a + vz b)"

definition v3_sub :: "vector3 \<Rightarrow> vector3 \<Rightarrow> vector3" where
  "v3_sub a b = Vector3 (vx a - vx b) (vy a - vy b) (vz a - vz b)"

definition v3_multiplyScalar :: "vector3 \<Rightarrow> real \<Rightarrow> vector3" where
  "v3_multiplyScalar a s = Vector3 (vx a * s) (vy a * s) (vz a * s)"

definition v3_addScaledVector :: "vector3 \<Rightarrow> vector3 \<Rightarrow> real \<Rightarrow> vector3" where
  "v3_addScaledVector a v s = Vector3 (vx a + vx v * s) (vy a + vy v * s) (vz a + vz v * s)"

definition v3_divideScalar :: "vector3 \<Rightarrow> real \<Rightarrow> vector3" where
  "v3_divideScalar a s = v3_multiplyScalar a (1 / s)"

definition v3_length :: "vector3 \<Rightarrow> real" where
  "v3_length a = sqrt (vx a * vx a + vy a * vy a + vz a * vz a)"

definition v3_normalize :: "vector3 \<Rightarrow> vector3" where
  "v3_normalize a = v3_divideScalar a (if v3_length a = 0 then 1 else v3_length a)"

definition v3_setLength :: "vector3 \<Rightarrow> real \<Rightarrow> vector3" where
  "v3_setLength a l = v3_multiplyScalar (v3_normalize a) l"

definition v3_distanceTo :: "vector3 \<Rightarrow> vector3 \<Rightarrow> real" where
  "v3_distanceTo a b =
     sqrt ((vx a - vx b) * (vx a - vx b) + (vy a - vy b) * (vy a - vy b)
           + (vz a - vz b) * (vz a - vz b))"

text \<open>
  A division by a scalar that may be zero. In the source \<open>v.divideScalar 0\<close> multiplies
  every component by \<open>1 / 0 = Infinity\<close>: a zero component becomes NaN, any other
  \<open>\<plusminus>Infinity\<close>. No component is finite afterwards, and \<open>sub\<close>, \<open>normalize\<close> and
  \<open>multiplyScalar\<close> keep the vector non-finite (\<open>normalize\<close> of a vector whose length is
  \<open>Infinity\<close> multiplies by zero, which gives NaN; a NaN length is falsy, so the vector is
  divided by 1 and keeps its NaN).
\<close>

definition v3_divideScalar_checked :: "vector3 \<Rightarrow> real \<Rightarrow> error + vector3" where
  "v3_divideScalar_checked a s = (if s = 0 then Inl NonFiniteVector else Inr (v3_divideScalar a s))"

text \<open>
  \<open>Math.atan2 y x\<close> on reals (the source's arguments are never signed zeros in the model).
\<close>

definition atan2 :: "real \<Rightarrow> real \<Rightarrow> real" where
  "atan2 y x =
     (if 0 < x then arctan (y / x)
      else if x < 0 \<and> 0 \<le> y then arctan (y / x) + pi
      else if x < 0 then arctan (y / x) - pi
      else if 0 < y then pi / 2
      else if y < 0 then - (pi / 2)
      else 0)"

section \<open>World data\<close>

text \<open>
  Modelled from the spec: \<open>Bounds3D\<close>, the cylinder description and \<open>World\<close> are declared in
  files that are not part of the sources at hand. The spec gives an axis-aligned box with
  min/max extents on each axis, cylinders with a base point (x, z) and a radius, and a world
  as a name with bounds and obstacle geometry. The field names are the ones the callers use
  (\<open>xMin\<close>, \<open>basePoint.x\<close>, \<open>radius\<close>, \<open>name\<close>, \<open>get3DBoundaries ()\<close>, \<open>obstacles.cylinders\<close>).
\<close>

record bounds3D =
  xMin :: real
  xMax :: real
  yMin :: real
  yMax :: real
  zMin :: real
  zMax :: real

record cylinder =
  basePoint_x :: real
  basePoint_z :: real
  radius :: real

record world =
  world_name :: string
  get3DBoundaries :: bounds3D
  obstacles_cylinders :: "cylinder list"

datatype renderingModes = Simple | Photorealistic

datatype boidType = Normal | ChangeOfLeader

record boidSimulationParams =
  boidCount :: real
  boidType :: boidType
  visibilityThreshold :: real
  maxSpeed :: real
  acceleration :: real
  worldName :: string
  worldDimens :: bounds3D
  rendering :: renderingModes
  randomnessPerTimestep :: real
  randomnessLimit :: real

section \<open>Boid\<close>

text \<open>
  A boid: its id, the position of its mesh, its velocity, its random bias, and the rotation
  of its mesh. \<open>pointInDirection\<close> resets the mesh rotation and then rotates about the
  world z-axis by \<open>- theta\<close> and about the world y-axis by \<open>phi\<close>; the rotation is kept as
  that pair of angles.
\<close>

record boid =
  boid_id :: nat
  position :: vector3
  velocity :: vector3
  randomBias :: vector3
  rotation :: "real \<times> real"

record ruleArguments =
  arg_neighbours :: "boid list"
  arg_simParams :: boidSimulationParams

text \<open>\<open>calculateVector\<close> of a rule object: a force for one boid in a context.\<close>

type_synonym rule = "boid \<Rightarrow> ruleArguments \<Rightarrow> vector3"

text \<open>Three successive results of \<open>Math.random ()\<close>, each in \<open>[0, 1)\<close>.\<close>

type_synonym samples3 = "real \<times> real \<times> real"

definition capSpeed :: "real \<Rightarrow> boid \<Rightarrow> boid" where
  "capSpeed ms b =
     (if v3_length (velocity b) > ms
      then b\<lparr>velocity := v3_setLength (velocity b) ms\<rparr>
      else b)"

definition updateRandomBias :: "real \<Rightarrow> real \<Rightarrow> samples3 \<Rightarrow> boid \<Rightarrow> boid" where
  "updateRandomBias rpt limit rs b =
     (case rs of (r1, r2, r3) \<Rightarrow>
        let bias = v3_add (randomBias b)
                     (Vector3 (r1 * rpt - rpt / 2) (r2 * rpt - rpt / 2) (r3 * rpt - rpt / 2))
        in if v3_length bias > limit
           then b\<lparr>randomBias := v3_divideScalar bias 100\<rparr>
           else b\<lparr>randomBias := bias\<rparr>)"

definition addRandomnessToVelocity :: "ruleArguments \<Rightarrow> samples3 \<Rightarrow> boid \<Rightarrow> boid" where
  "addRandomnessToVelocity args rs b =
     (let b' = updateRandomBias (randomnessPerTimestep (arg_simParams args))
                 (randomnessLimit (arg_simParams args)) rs b
      in b'\<lparr>velocity := v3_add (velocity b') (randomBias b')\<rparr>)"

definition pointInDirection :: "vector3 \<Rightarrow> boid \<Rightarrow> boid" where
  "pointInDirection v b =
     (let phi = atan2 (- vz v) (vx v);
          a = sqrt ((vx v)\<^sup>2 + (vz v)\<^sup>2);
          theta = atan2 a (vy v)
      in b\<lparr>rotation := (- theta, phi)\<rparr>)"

definition move :: "boid \<Rightarrow> boid" where
  "move b =
     (let b' = pointInDirection (velocity b) b
      in b'\<lparr>position := v3_add (position b') (velocity b')\<rparr>)"

text \<open>
  The loop over the rules: each rule is evaluated on the boid as the rules before it have
  left it, and its vector is added to the velocity.
\<close>

fun applyRules :: "rule list \<Rightarrow> ruleArguments \<Rightarrow> boid \<Rightarrow> boid" where
  "applyRules [] args b = b"
| "applyRules (r # rs) args b =
     applyRules rs args (b\<lparr>velocity := v3_add (velocity b) (r b args)\<rparr>)"

definition updateAndMove :: "rule list \<Rightarrow> ruleArguments \<Rightarrow> samples3 \<Rightarrow> boid \<Rightarrow> boid" where
  "updateAndMove rules args rs b =
     move (addRandomnessToVelocity args rs
       (capSpeed (maxSpeed (arg_simParams args)) (applyRules rules args b)))"

definition isOtherBoidVisible :: "boid \<Rightarrow> boid \<Rightarrow> real \<Rightarrow> bool" where
  "isOtherBoidVisible b other vt \<longleftrightarrow> v3_distanceTo (position b) (position other) < vt"

text \<open>
  The constructor: a new boid has the given id, position and velocity, a zero random bias
  and an unrotated mesh.
\<close>

definition newBoid :: "nat \<Rightarrow> vector3 \<Rightarrow> vector3 \<Rightarrow> boid" where
  "newBoid i p v = \<lparr>boid_id = i, position = p, velocity = v, randomBias = v3_zero, rotation = (0, 0)\<rparr>"

text \<open>
  The factory for a boid with random position and velocity. The six samples are the results
  of \<open>Math.random ()\<close> for the position and the velocity, in the order of the calls. The
  simulation passes only position bounds, so the velocity bounds are the defaults.
\<close>

definition generateWithRandomPosAndVel :: "nat \<Rightarrow> bounds3D \<Rightarrow> samples3 \<times> samples3 \<Rightarrow> boid" where
  "generateWithRandomPosAndVel i pb rs =
     (case rs of ((r1, r2, r3), (r4, r5, r6)) \<Rightarrow>
        newBoid i
          (Vector3 (r1 * (xMax pb - xMin pb) + xMin pb)
                   (r2 * (yMax pb - yMin pb) + yMin pb)
                   (r3 * (zMax pb - zMin pb) + zMin pb))
          (Vector3 (r4 * (0.2 - (- 0.2)) + (- 0.2))
                   (r5 * (0.02 - (- 0.02)) + (- 0.02))
                   (r6 * (0.2 - (- 0.2)) + (- 0.2))))"

text \<open>
  The per-tick update as the specification words it, step by step and without the
  functions of the code above.

  Step 1: every active rule is evaluated and its vector is added to the velocity as it is.
  \<open>velocityAfter rl args b k\<close> is the velocity once the first \<open>k\<close> rules of the list have
  added their vectors; the rule at index \<open>k\<close> is evaluated on the boid with that velocity.
\<close>

fun velocityAfter :: "rule list \<Rightarrow> ruleArguments \<Rightarrow> boid \<Rightarrow> nat \<Rightarrow> vector3" where
  "velocityAfter rl args b 0 = velocity b"
| "velocityAfter rl args b (Suc k) =
     v3_add (velocityAfter rl args b k)
       ((rl ! k) (b\<lparr>velocity := velocityAfter rl args b k\<rparr>) args)"

text \<open>
  Step 2: a velocity whose magnitude exceeds the maximum speed is rescaled to exactly that
  magnitude, in the same direction.
\<close>

definition cappedVelocity_spec :: "real \<Rightarrow> vector3 \<Rightarrow> vector3" where
  "cappedVelocity_spec ms v =
     (if v3_length v > ms
      then Vector3 (vx v * (ms / v3_length v)) (vy v * (ms / v3_length v)) (vz v * (ms / v3_length v))
      else v)"

text \<open>
  Step 3: the random bias drifts on each axis by a delta from
  \<open>[- randomnessPerTimestep / 2, randomnessPerTimestep / 2]\<close>, which for a sample \<open>r\<close> is
  \<open>randomnessPerTimestep * (r - 1 / 2)\<close>; a bias whose magnitude then exceeds the limit is
  divided by 100.
\<close>

definition driftedBias_spec :: "real \<Rightarrow> real \<Rightarrow> samples3 \<Rightarrow> vector3 \<Rightarrow> vector3" where
  "driftedBias_spec rpt limit rs bias =
     (case rs of (r1, r2, r3) \<Rightarrow>
        let drifted = Vector3 (vx bias + rpt * (r1 - 1 / 2)) (vy bias + rpt * (r2 - 1 / 2))
                        (vz bias + rpt * (r3 - 1 / 2))
        in if v3_length drifted > limit
           then Vector3 (vx drifted / 100) (vy drifted / 100) (vz drifted / 100)
           else drifted)"

text \<open>
  The whole tick: the velocity after the rules is capped, the drifted bias is added to it,
  the position moves by the resulting velocity, and the orientation is the yaw
  \<open>atan2 (- z) x\<close> and the pitch \<open>atan2 (sqrt (x\<^sup>2 + z\<^sup>2)) y\<close> of that velocity.
\<close>

definition tick_spec :: "rule list \<Rightarrow> ruleArguments \<Rightarrow> samples3 \<Rightarrow> boid \<Rightarrow> boid" where
  "tick_spec rl args rs b =
     (let afterRules = velocityAfter rl args b (length rl);
          capped = cappedVelocity_spec (maxSpeed (arg_simParams args)) afterRules;
          bias = driftedBias_spec (randomnessPerTimestep (arg_simParams args))
                   (randomnessLimit (arg_simParams args)) rs (randomBias b);
          v = Vector3 (vx capped + vx bias) (vy capped + vy bias) (vz capped + vz bias)
      in \<lparr>boid_id = boid_id b,
          position = Vector3 (vx (position b) + vx v) (vy (position b) + vy v)
                       (vz (position b) + vz v),
          velocity = v,
          randomBias = bias,
          rotation = (- atan2 (sqrt ((vx v)\<^sup>2 + (vz v)\<^sup>2)) (vy v), atan2 (- vz v) (vx v))\<rparr>)"

section \<open>Rules\<close>

text \<open>
  Separation and cohesion weigh each neighbour by a dropoff function of the length of
  \<open>thisBoid.toOther neighbour\<close>. Neither \<open>toOther\<close> nor the dropoff classes are among the
  sources at hand, so both are parameters: \<open>toOther\<close> gives the vector between two boids
  and \<open>dropoff\<close> is the \<open>fn\<close> of the active dropoff. The loops carry the accumulated
  vector and the sum of the weights.
\<close>

fun separation_loop ::
  "(boid \<Rightarrow> boid \<Rightarrow> vector3) \<Rightarrow> (real \<Rightarrow> real) \<Rightarrow> boid \<Rightarrow> boid list \<Rightarrow> vector3 \<times> real
   \<Rightarrow> vector3 \<times> real" where
  "separation_loop toOther dropoff thisBoid [] acc = acc"
| "separation_loop toOther dropoff thisBoid (neighbour # ns) (separation, weightSum) =
     (let t = toOther thisBoid neighbour;
          weight = dropoff (v3_length t)
      in separation_loop toOther dropoff thisBoid ns
           (v3_addScaledVector separation t weight, weightSum + weight))"

definition SeparationRule_calculateVector ::
  "real \<Rightarrow> (boid \<Rightarrow> boid \<Rightarrow> vector3) \<Rightarrow> (real \<Rightarrow> real) \<Rightarrow> boid \<Rightarrow> boid list \<Rightarrow> error + vector3" where
  "SeparationRule_calculateVector weight toOther dropoff thisBoid neighbours =
     (if length neighbours = 0 then Inr v3_zero
      else case separation_loop toOther dropoff thisBoid neighbours (v3_zero, 0) of
        (separation, weightSum) \<Rightarrow>
          if weightSum = 0 then Inr v3_zero
          else (case v3_divideScalar_checked separation weightSum of
                  Inl e \<Rightarrow> Inl e
                | Inr s \<Rightarrow> Inr (v3_multiplyScalar (v3_normalize s) weight)))"

fun cohesion_loop ::
  "(boid \<Rightarrow> boid \<Rightarrow> vector3) \<Rightarrow> (real \<Rightarrow> real) \<Rightarrow> boid \<Rightarrow> boid list \<Rightarrow> vector3 \<times> real
   \<Rightarrow> vector3 \<times> real" where
  "cohesion_loop toOther dropoff thisBoid [] acc = acc"
| "cohesion_loop toOther dropoff thisBoid (neighbour # ns) (centre, weightSum) =
     (let weight = dropoff (v3_length (toOther thisBoid neighbour))
      in cohesion_loop toOther dropoff thisBoid ns
           (v3_addScaledVector centre (position neighbour) weight, weightSum + weight))"

definition CohesionRule_calculateVector ::
  "real \<Rightarrow> (boid \<Rightarrow> boid \<Rightarrow> vector3) \<Rightarrow> (real \<Rightarrow> real) \<Rightarrow> boid \<Rightarrow> boid list \<Rightarrow> error + vector3" where
  "CohesionRule_calculateVector weight toOther dropoff thisBoid neighbours =
     (if length neighbours = 0 then Inr v3_zero
      else case cohesion_loop toOther dropoff thisBoid neighbours (v3_zero, 0) of
        (centre, weightSum) \<Rightarrow>
          (case v3_divideScalar_checked centre weightSum of
             Inl e \<Rightarrow> Inl e
           | Inr c \<Rightarrow> Inr (v3_multiplyScalar (v3_normalize (v3_sub c (position thisBoid))) weight)))"

text \<open>
  The obstacle-avoidance rule keeps its weight, its sharpness and a reference to the current
  world. \<open>Math.pow\<close> is \<open>powr\<close>, which agrees with it on a positive base (the sharpness is
  documented to be at least 1).
\<close>

record obstacleAvoidanceRule =
  oar_weight :: real
  oar_SHARPNESS :: real
  oar_world :: world

definition setWorld :: "world \<Rightarrow> obstacleAvoidanceRule \<Rightarrow> obstacleAvoidanceRule" where
  "setWorld w r = r\<lparr>oar_world := w\<rparr>"

fun obstacle_loop :: "real \<Rightarrow> boid \<Rightarrow> cylinder list \<Rightarrow> vector3 \<Rightarrow> vector3" where
  "obstacle_loop sharpness thisBoid [] finalVector = finalVector"
| "obstacle_loop sharpness thisBoid (c # cs) finalVector =
     (let adjustedCylinderPosition =
            Vector3 (basePoint_x c) (vy (position thisBoid)) (basePoint_z c);
          avoidanceVector = v3_sub (position thisBoid) adjustedCylinderPosition;
          distance0 = v3_length avoidanceVector - radius c;
          distance = (if distance0 < 0 then 0 else distance0);
          avoidanceMagnitude = sharpness powr (- (distance - 10))
      in obstacle_loop sharpness thisBoid cs
           (v3_add finalVector (v3_setLength avoidanceVector avoidanceMagnitude)))"

definition ObstacleAvoidanceRule_calculateVector :: "obstacleAvoidanceRule \<Rightarrow> rule" where
  "ObstacleAvoidanceRule_calculateVector r thisBoid args =
     v3_multiplyScalar
       (obstacle_loop (oar_SHARPNESS r) thisBoid (obstacles_cylinders (oar_world r)) v3_zero)
       (oar_weight r)"

text \<open>
  The distance of a position from the surface of a cylinder as the specification words it:
  the planar distance to the axis minus the radius, clamped to zero inside the radius.
\<close>

definition surfaceDistance_spec :: "cylinder \<Rightarrow> vector3 \<Rightarrow> real" where
  "surfaceDistance_spec c p =
     max 0 (sqrt ((vx p - basePoint_x c)\<^sup>2 + (vz p - basePoint_z c)\<^sup>2) - radius c)"

definition onAxis :: "cylinder \<Rightarrow> vector3 \<Rightarrow> bool" where
  "onAxis c p \<longleftrightarrow> vx p = basePoint_x c \<and> vz p = basePoint_z c"

section \<open>World registry\<close>

fun getNames :: "world list \<Rightarrow> string list" where
  "getNames [] = []"
| "getNames (w # ws) = world_name w # getNames ws"

fun getWorldByName :: "world list \<Rightarrow> string \<Rightarrow> error + world" where
  "getWorldByName [] n = Inl WorldNotFound"
| "getWorldByName (w # ws) n = (if world_name w = n then Inr w else getWorldByName ws n)"

section \<open>The simulation\<close>

text \<open>
  The state of \<open>BoidSimulation\<close> without its view (scene, GUI, meshes). The rule list holds
  the obstacle-avoidance rule by reference, so that \<open>setWorld\<close> on \<open>obstacleAvoidRule\<close> is
  seen through the list; the rules whose sources are not at hand are arbitrary
  \<open>calculateVector\<close> functions.
\<close>

datatype rule_ref = ObstacleAvoidRule | OtherRule rule

record boidSimulation =
  worlds :: "world list"
  currentWorldName :: string
  currentRendering :: renderingModes
  boids :: "boid list"
  nextBoidId :: nat
  simParams :: boidSimulationParams
  obstacleAvoidRule :: obstacleAvoidanceRule
  rules :: "rule_ref list"

definition reloadWorld :: "boidSimulation \<Rightarrow> error + boidSimulation" where
  "reloadWorld s =
     (case getWorldByName (worlds s) (worldName (simParams s)) of
        Inl e \<Rightarrow> Inl e
      | Inr w \<Rightarrow>
          Inr (s\<lparr>simParams := (simParams s)\<lparr>worldDimens := get3DBoundaries w\<rparr>,
                  obstacleAvoidRule := setWorld w (obstacleAvoidRule s),
                  boids := [],
                  currentWorldName := worldName (simParams s),
                  currentRendering := rendering (simParams s)\<rparr>))"

definition newBoidId :: "boidSimulation \<Rightarrow> nat \<times> boidSimulation" where
  "newBoidId s = (nextBoidId s, s\<lparr>nextBoidId := nextBoidId s + 1\<rparr>)"

text \<open>\<open>Array.pop\<close>: the last element, or \<open>undefined\<close> on an empty array, which it leaves empty.\<close>

definition pop :: "'a list \<Rightarrow> 'a option \<times> 'a list" where
  "pop xs = (if xs = [] then (None, xs) else (Some (last xs), butlast xs))"

text \<open>
  The options that the simulation hands to its boid generator, all read from the
  parameters.
\<close>

record boidGeneratorOptions =
  opt_boidType :: boidType
  opt_positionBounds :: bounds3D
  opt_acceleration :: real
  opt_rendering :: renderingModes

definition generatorOptions :: "boidSimulationParams \<Rightarrow> boidGeneratorOptions" where
  "generatorOptions p =
     \<lparr>opt_boidType = boidType p, opt_positionBounds = worldDimens p,
      opt_acceleration = acceleration p, opt_rendering = rendering p\<rparr>"

text \<open>
  The generator that the simulation calls, \<open>generateBoidWithRandomPosAndVec\<close> with an id and
  these options, is not among the sources at hand in that form, so it is a parameter of the
  loops: a function of the id, the options and the random samples drawn for the boid.
  \<open>boidFactory\<close> is the instance that the sources at hand give: the factory of the boid
  class on the position bounds of the options.
\<close>

type_synonym boidGenerator = "nat \<Rightarrow> boidGeneratorOptions \<Rightarrow> samples3 \<times> samples3 \<Rightarrow> boid"

definition boidFactory :: boidGenerator where
  "boidFactory i opts rs = generateWithRandomPosAndVel i (opt_positionBounds opts) rs"

text \<open>
  Modelled from the spec: of the generator itself only what the specification says about
  identity is assumed where it matters, that the id assigned by the simulation loop is the
  id of the new boid.
\<close>

definition handsIdOn :: "boidGenerator \<Rightarrow> bool" where
  "handsIdOn g \<longleftrightarrow> (\<forall>i opts rs. boid_id (g i opts rs) = i)"

text \<open>
  The two loops of \<open>updateBoidCount\<close>. \<open>gen i\<close> holds the random samples drawn for the
  boid that gets id \<open>i\<close>. The target count is a number, not necessarily whole, hence the
  real \<open>difference\<close>.
\<close>

function generateLoop ::
  "boidGenerator \<Rightarrow> (nat \<Rightarrow> samples3 \<times> samples3) \<Rightarrow> real \<Rightarrow> boidSimulation
   \<Rightarrow> real \<times> boidSimulation" where
  "generateLoop g gen difference s =
     (if difference > 0
      then (case newBoidId s of
              (i, s1) \<Rightarrow>
                generateLoop g gen (difference - 1)
                  (s1\<lparr>boids := boids s1 @ [g i (generatorOptions (simParams s1)) (gen i)]\<rparr>))
      else (difference, s))"
  by pat_completeness auto
termination
  by (relation "measure (\<lambda>(g, gen, d, s). nat \<lceil>d\<rceil>)") (auto simp: nat_less_iff)

declare generateLoop.simps [simp del]

function removeLoop :: "real \<Rightarrow> boidSimulation \<Rightarrow> boidSimulation" where
  "removeLoop difference s =
     (if difference < 0
      then (case pop (boids s) of
              (None, bs) \<Rightarrow> s\<lparr>boids := bs\<rparr>
            | (Some boid, bs) \<Rightarrow> removeLoop (difference + 1) (s\<lparr>boids := bs\<rparr>))
      else s)"
  by pat_completeness auto
termination
  by (relation "measure (\<lambda>(d, s). length (boids s))") (auto simp: pop_def split: if_splits)

declare removeLoop.simps [simp del]

definition updateBoidCount ::
  "boidGenerator \<Rightarrow> (nat \<Rightarrow> samples3 \<times> samples3) \<Rightarrow> boidSimulation \<Rightarrow> boidSimulation" where
  "updateBoidCount g gen s =
     (if boidCount (simParams s) = real (length (boids s)) then s
      else case generateLoop g gen (boidCount (simParams s) - real (length (boids s))) s of
             (difference, s1) \<Rightarrow> removeLoop difference s1)"

text \<open>
  The identity of a boid object is its id: \<open>newBoidId\<close> never hands out the same id twice,
  so \<open>otherBoid === boid\<close> holds exactly when the ids agree.
\<close>

definition getBoidNeighbours :: "boidSimulation \<Rightarrow> boid \<Rightarrow> boid list" where
  "getBoidNeighbours s b =
     filter (\<lambda>otherBoid. boid_id otherBoid \<noteq> boid_id b
               \<and> isOtherBoidVisible b otherBoid (visibilityThreshold (simParams s)))
       (boids s)"

definition calculateVector_of :: "boidSimulation \<Rightarrow> rule_ref \<Rightarrow> rule" where
  "calculateVector_of s r =
     (case r of
        ObstacleAvoidRule \<Rightarrow> ObstacleAvoidanceRule_calculateVector (obstacleAvoidRule s)
      | OtherRule f \<Rightarrow> f)"

text \<open>
  One tick. The boids are updated in place and in order, so a boid's neighbours are read
  from the collection as the updates before it have left it. \<open>rnd i\<close> holds the samples
  drawn in the update of the boid at index \<open>i\<close>. The per-boid update is \<open>updateAndMove\<close>.
\<close>

definition updateBoid :: "(nat \<Rightarrow> samples3) \<Rightarrow> nat \<Rightarrow> boidSimulation \<Rightarrow> boidSimulation" where
  "updateBoid rnd i s =
     (let b = boids s ! i;
          args = \<lparr>arg_neighbours = getBoidNeighbours s b, arg_simParams = simParams s\<rparr>
      in s\<lparr>boids := (boids s)[i := updateAndMove (map (calculateVector_of s) (rules s)) args (rnd i) b]\<rparr>)"

definition reloadIfNeeded :: "boidSimulation \<Rightarrow> error + boidSimulation" where
  "reloadIfNeeded s =
     (if currentWorldName s \<noteq> worldName (simParams s)
         \<or> currentRendering s \<noteq> rendering (simParams s)
      then reloadWorld s else Inr s)"

definition update ::
  "boidGenerator \<Rightarrow> (nat \<Rightarrow> samples3 \<times> samples3) \<Rightarrow> (nat \<Rightarrow> samples3) \<Rightarrow> boidSimulation
   \<Rightarrow> error + boidSimulation" where
  "update g gen rnd s =
     (case reloadIfNeeded s of
        Inl e \<Rightarrow> Inl e
      | Inr s1 \<Rightarrow>
          let s2 = updateBoidCount g gen s1
          in Inr (fold (updateBoid rnd) [0..<length (boids s2)] s2))"

text \<open>
  Two states agree on the world: they differ at most in the boids and in the id counter.
\<close>

definition sameWorld :: "boidSimulation \<Rightarrow> boidSimulation \<Rightarrow> bool" where
  "sameWorld s s' \<longleftrightarrow>
     worlds s' = worlds s \<and> currentWorldName s' = currentWorldName s
     \<and> currentRendering s' = currentRendering s \<and> simParams s' = simParams s
     \<and> obstacleAvoidRule s' = obstacleAvoidRule s \<and> rules s' = rules s"

text \<open>
  Every boid of the collection has an id below the id counter. The simulation starts with
  no boids and the counter at zero.
\<close>

definition idsBelowCounter :: "boidSimulation \<Rightarrow> bool" where
  "idsBelowCounter s \<longleftrightarrow> (\<forall>b \<in> set (boids s). boid_id b < nextBoidId s)"

section \<open>Example data\<close>

text \<open>
  Modelled from the spec: the proportional dropoff, whose class is not among the sources at
  hand. It returns \<open>constant * (1 - distance / visibilityRadius)\<close>, clamped to zero at or
  beyond the radius.
\<close>

definition proportionalDropoff :: "real \<Rightarrow> real \<Rightarrow> real \<Rightarrow> real" where
  "proportionalDropoff visibilityRadius constant d = max 0 (constant * (1 - d / visibilityRadius))"

text \<open>The vector from a boid to another one, for the \<open>toOther\<close> parameter of the rules.\<close>

definition toOther_example :: "boid \<Rightarrow> boid \<Rightarrow> vector3" where
  "toOther_example b other = v3_sub (position other) (position b)"

text \<open>
  Worlds for concrete runs: a box of 200 by 100 by 200 without obstacles, and two worlds
  that share a name, each with one cylinder.
\<close>

definition exampleBounds :: bounds3D where
  "exampleBounds = \<lparr>xMin = - 100, xMax = 100, yMin = 0, yMax = 100, zMin = - 100, zMax = 100\<rparr>"

definition smallBounds :: bounds3D where
  "smallBounds = \<lparr>xMin = - 50, xMax = 50, yMin = 0, yMax = 50, zMin = - 50, zMax = 50\<rparr>"

definition exampleCylinder :: cylinder where
  "exampleCylinder = \<lparr>basePoint_x = 0, basePoint_z = 0, radius = 5\<rparr>"

definition worldA :: world where
  "worldA = \<lparr>world_name = ''Default'', get3DBoundaries = exampleBounds, obstacles_cylinders = []\<rparr>"

definition worldB :: world where
  "worldB = \<lparr>world_name = ''Obstacles'', get3DBoundaries = smallBounds,
              obstacles_cylinders = [exampleCylinder]\<rparr>"

definition worldB' :: world where
  "worldB' = \<lparr>world_name = ''Obstacles'', get3DBoundaries = exampleBounds,
               obstacles_cylinders = [exampleCylinder\<lparr>radius := 7\<rparr>]\<rparr>"

text \<open>The initial parameters of the simulation, and a simulation with three boids.\<close>

definition exampleParams :: boidSimulationParams where
  "exampleParams =
     \<lparr>boidCount = 100, boidType = ChangeOfLeader, visibilityThreshold = 25, maxSpeed = 0.5,
      acceleration = 0.01, worldName = ''Default'',
      worldDimens = exampleBounds, rendering = Simple,
      randomnessPerTimestep = 0.01, randomnessLimit = 0.1\<rparr>"

definition exampleArgs :: ruleArguments where
  "exampleArgs = \<lparr>arg_neighbours = [], arg_simParams = exampleParams\<rparr>"

definition exampleSimulation :: boidSimulation where
  "exampleSimulation =
     \<lparr>worlds = [worldA, worldB, worldB'],
      currentWorldName = ''Default'',
      currentRendering = Simple,
      boids = [newBoid 0 (Vector3 0 0 0) (Vector3 0.5 0 0),
               newBoid 1 (Vector3 25 0 0) (Vector3 0 0 0),
               newBoid 2 (Vector3 (- 24) 0 0) (Vector3 0 0 0)],
      nextBoidId = 3,
      simParams = exampleParams,
      obstacleAvoidRule = \<lparr>oar_weight = 10, oar_SHARPNESS = 3, oar_world = worldA\<rparr>,
      rules = [ObstacleAvoidRule]\<rparr>"

definition exampleRule :: obstacleAvoidanceRule where
  "exampleRule = \<lparr>oar_weight = 10, oar_SHARPNESS = 3, oar_world = worldB\<rparr>"

definition exampleGen :: "nat \<Rightarrow> samples3 \<times> samples3" where
  "exampleGen i = ((1 / 2, 1 / 2, 1 / 2), (1 / 2, 1 / 2, 1 / 2))"

section \<open>Vector facts\<close>

lemma v3_length_nonneg: "0 \<le> v3_length a"
  by (simp add: v3_length_def)

lemma v3_length_x_axis [simp]: "v3_length (Vector3 a 0 0) = \<bar>a\<bar>"
  by (simp add: v3_length_def)

lemma v3_distanceTo_x_axis [simp]: "v3_distanceTo (Vector3 a 0 0) (Vector3 b 0 0) = \<bar>a - b\<bar>"
  by (simp add: v3_distanceTo_def)

lemma v3_length_multiplyScalar: "v3_length (v3_multiplyScalar a s) = \<bar>s\<bar> * v3_length a"
proof -
  have "vx a * s * (vx a * s) + vy a * s * (vy a * s) + vz a * s * (vz a * s)
        = (s * s) * (vx a * vx a + vy a * vy a + vz a * vz a)"
    by (simp add: algebra_simps)
  then show ?thesis
    by (simp add: v3_length_def v3_multiplyScalar_def real_sqrt_mult)
qed

lemma v3_length_normalize: "v3_length a \<noteq> 0 \<Longrightarrow> v3_length (v3_normalize a) = 1"
  using v3_length_nonneg [of a]
  by (simp add: v3_normalize_def v3_divideScalar_def v3_length_multiplyScalar)

lemma v3_length_setLength: "v3_length a \<noteq> 0 \<Longrightarrow> v3_length (v3_setLength a l) = \<bar>l\<bar>"
  by (simp add: v3_setLength_def v3_length_multiplyScalar v3_length_normalize)

lemma v3_length_as_nested:
  "v3_length a = sqrt ((sqrt ((vx a)\<^sup>2 + (vy a)\<^sup>2))\<^sup>2 + (vz a)\<^sup>2)"
  by (simp add: v3_length_def power2_eq_square)

text \<open>The triangle inequality in three dimensions, from the planar one applied twice.\<close>

lemma v3_triangle: "v3_length (v3_add a b) \<le> v3_length a + v3_length b"
proof -
  let ?p = "sqrt ((vx a)\<^sup>2 + (vy a)\<^sup>2)" and ?q = "sqrt ((vx b)\<^sup>2 + (vy b)\<^sup>2)"
  have planar: "sqrt ((vx a + vx b)\<^sup>2 + (vy a + vy b)\<^sup>2) \<le> ?p + ?q"
    by (rule real_sqrt_sum_squares_triangle_ineq)
  have nonneg: "0 \<le> sqrt ((vx a + vx b)\<^sup>2 + (vy a + vy b)\<^sup>2)"
    by simp
  have "(sqrt ((vx a + vx b)\<^sup>2 + (vy a + vy b)\<^sup>2))\<^sup>2 \<le> (?p + ?q)\<^sup>2"
    using planar nonneg by (rule power_mono [OF _ _])
  then have "sqrt ((sqrt ((vx a + vx b)\<^sup>2 + (vy a + vy b)\<^sup>2))\<^sup>2 + (vz a + vz b)\<^sup>2)
             \<le> sqrt ((?p + ?q)\<^sup>2 + (vz a + vz b)\<^sup>2)"
    by simp
  also have "\<dots> \<le> sqrt (?p\<^sup>2 + (vz a)\<^sup>2) + sqrt (?q\<^sup>2 + (vz b)\<^sup>2)"
    by (rule real_sqrt_sum_squares_triangle_ineq)
  finally show ?thesis
    by (simp add: v3_length_as_nested v3_add_def)
qed

lemma v3_sub_add_cancel: "v3_sub (v3_add a b) b = a"
  by (simp add: v3_sub_def v3_add_def)

lemma v3_distanceTo_sym: "v3_distanceTo a b = v3_distanceTo b a"
proof -
  have "(vx a - vx b) * (vx a - vx b) = (vx b - vx a) * (vx b - vx a)"
       "(vy a - vy b) * (vy a - vy b) = (vy b - vy a) * (vy b - vy a)"
       "(vz a - vz b) * (vz a - vz b) = (vz b - vz a) * (vz b - vz a)"
    by (simp_all add: algebra_simps)
  then show ?thesis by (simp add: v3_distanceTo_def)
qed

lemma v3_add_zero_left: "v3_add v3_zero a = a"
  by (simp add: v3_add_def v3_zero_def)

lemma v3_length_zero_iff: "v3_length a = 0 \<longleftrightarrow> a = Vector3 0 0 0"
proof -
  have "vx a * vx a + vy a * vy a + vz a * vz a = 0 \<longleftrightarrow> vx a = 0 \<and> vy a = 0 \<and> vz a = 0"
    by (metis add_nonneg_eq_0_iff mult_eq_0_iff zero_le_square add_nonneg_nonneg)
  then show ?thesis
    by (cases a) (simp add: v3_length_def)
qed

lemma v3_setLength_zero: "v3_setLength (Vector3 0 0 0) l = Vector3 0 0 0"
  by (simp add: v3_setLength_def v3_normalize_def v3_divideScalar_def v3_multiplyScalar_def)

text \<open>
  Setting the length of a vector scales it by the ratio of the new length to the old one;
  for the zero vector both sides are the zero vector.
\<close>

lemma v3_setLength_rescale:
  "v3_setLength v l
   = Vector3 (vx v * (l / v3_length v)) (vy v * (l / v3_length v)) (vz v * (l / v3_length v))"
proof (cases "v3_length v = 0")
  case True
  then have "v = Vector3 0 0 0" by (simp add: v3_length_zero_iff)
  then show ?thesis
    by (simp add: v3_setLength_def v3_normalize_def v3_divideScalar_def v3_multiplyScalar_def)
next
  case False
  then show ?thesis
    by (simp add: v3_setLength_def v3_normalize_def v3_divideScalar_def v3_multiplyScalar_def)
qed

section \<open>The per-tick update of a boid\<close>

text \<open>
  The loop over the rules, which consumes the list from its head, leaves the velocity that
  the specification reaches rule by rule from the start of the list.
\<close>

lemma velocityAfter_Cons:
  "velocityAfter (r # rl) args b (Suc k)
   = velocityAfter rl args (b\<lparr>velocity := v3_add (velocity b) (r b args)\<rparr>) k"
proof (induction k)
  case 0
  show ?case by simp
next
  case (Suc k)
  show ?case
    by (simp only: velocityAfter.simps(2) [of _ _ _ "Suc k"] Suc.IH) simp
qed

lemma applyRules_velocityAfter:
  "applyRules rl args b = b\<lparr>velocity := velocityAfter rl args b (length rl)\<rparr>"
proof (induction rl arbitrary: b)
  case Nil
  show ?case by simp
next
  case (Cons r rl)
  have "applyRules (r # rl) args b
        = applyRules rl args (b\<lparr>velocity := v3_add (velocity b) (r b args)\<rparr>)"
    by simp
  also have "\<dots> = (b\<lparr>velocity := v3_add (velocity b) (r b args)\<rparr>)
       \<lparr>velocity := velocityAfter rl args (b\<lparr>velocity := v3_add (velocity b) (r b args)\<rparr>) (length rl)\<rparr>"
    by (rule Cons.IH)
  also have "\<dots> = b\<lparr>velocity := velocityAfter (r # rl) args b (length (r # rl))\<rparr>"
    by (simp add: velocityAfter_Cons del: velocityAfter.simps)
  finally show ?case .
qed

lemma capSpeed_spec:
  "capSpeed ms b = b\<lparr>velocity := cappedVelocity_spec ms (velocity b)\<rparr>"
  by (simp add: capSpeed_def cappedVelocity_spec_def v3_setLength_rescale)

lemma updateRandomBias_spec:
  "updateRandomBias rpt limit rs b
   = b\<lparr>randomBias := driftedBias_spec rpt limit rs (randomBias b)\<rparr>"
  by (cases rs)
     (simp add: updateRandomBias_def driftedBias_spec_def v3_add_def v3_divideScalar_def
        v3_multiplyScalar_def Let_def algebra_simps)

text \<open>
  C1. The update of a boid in a tick is the five steps of the specification in their order:
  the vector of every rule is added to the velocity as it is, the result is capped at the
  maximum speed, the drifted random bias is added after the cap, the position moves by the
  resulting velocity, and the orientation is a function of that velocity alone; the id is
  kept. (The source sets the orientation just before it adds the velocity to the position;
  the two steps touch different fields, so the order between them is not observable.)
\<close>

theorem updateAndMove_step_order:
  "updateAndMove rl args rs b = tick_spec rl args rs b"
  by (cases b)
     (simp add: updateAndMove_def tick_spec_def applyRules_velocityAfter capSpeed_spec
        addRandomnessToVelocity_def updateRandomBias_spec move_def pointInDirection_def
        v3_add_def Let_def)

section \<open>The speed cap\<close>

lemma capSpeed_bound: "0 \<le> ms \<Longrightarrow> v3_length (velocity (capSpeed ms b)) \<le> ms"
proof (cases "v3_length (velocity b) > ms")
  case True
  assume "0 \<le> ms"
  with True have "v3_length (velocity b) \<noteq> 0" by simp
  then have "v3_length (v3_setLength (velocity b) ms) = \<bar>ms\<bar>"
    by (rule v3_length_setLength)
  with True \<open>0 \<le> ms\<close> show ?thesis by (simp add: capSpeed_def)
next
  case False
  then show ?thesis by (simp add: capSpeed_def)
qed

lemma velocity_move: "velocity (move b) = velocity b"
  by (simp add: move_def pointInDirection_def Let_def)

lemma randomBias_move: "randomBias (move b) = randomBias b"
  by (simp add: move_def pointInDirection_def Let_def)

lemma velocity_addRandomness:
  "velocity (addRandomnessToVelocity args rs b)
   = v3_add (velocity b) (randomBias (addRandomnessToVelocity args rs b))"
  by (cases rs) (simp add: addRandomnessToVelocity_def updateRandomBias_def Let_def)

lemma updateAndMove_velocity:
  "velocity (updateAndMove rl args rs b)
   = v3_add (velocity (capSpeed (maxSpeed (arg_simParams args)) (applyRules rl args b)))
       (randomBias (updateAndMove rl args rs b))"
  by (simp add: updateAndMove_def velocity_move randomBias_move velocity_addRandomness)

text \<open>
  C2, as stated, fails: the random bias is added after the cap. A boid that flies along the
  x-axis at exactly the maximum speed 0.5, with no rules and the samples 3/4, 1/2, 1/2, ends
  the tick at speed 0.5025.
\<close>

theorem speed_exceeds_maxSpeed:
  "\<not> v3_length (velocity (updateAndMove [] exampleArgs (3 / 4, 1 / 2, 1 / 2)
          (newBoid 0 (Vector3 0 0 0) (Vector3 0.5 0 0))))
      \<le> maxSpeed (arg_simParams exampleArgs)"
  by (simp add: updateAndMove_def capSpeed_def addRandomnessToVelocity_def updateRandomBias_def
        move_def pointInDirection_def newBoid_def exampleArgs_def exampleParams_def
        v3_add_def v3_zero_def Let_def)

text \<open>
  C2, amended. For a maximum speed that is not negative, what a tick leaves of the velocity
  once the random bias of that tick is taken off again has a magnitude of at most the
  maximum speed: the cap bounds the velocity as it is before the randomness step.
\<close>

theorem speed_cap_before_randomness:
  assumes "0 \<le> maxSpeed (arg_simParams args)"
  shows "v3_length (v3_sub (velocity (updateAndMove rl args rs b))
                           (randomBias (updateAndMove rl args rs b)))
         \<le> maxSpeed (arg_simParams args)"
  using capSpeed_bound [OF assms, of "applyRules rl args b"]
  by (simp add: updateAndMove_velocity v3_sub_add_cancel)

theorem speed_cap_before_randomness_witness:
  "0 \<le> maxSpeed (arg_simParams exampleArgs)
   \<and> v3_length (v3_sub
        (velocity (updateAndMove [] exampleArgs (3 / 4, 1 / 2, 1 / 2)
           (newBoid 0 (Vector3 0 0 0) (Vector3 0.5 0 0))))
        (randomBias (updateAndMove [] exampleArgs (3 / 4, 1 / 2, 1 / 2)
           (newBoid 0 (Vector3 0 0 0) (Vector3 0.5 0 0)))))
      \<le> maxSpeed (arg_simParams exampleArgs)"
  using speed_cap_before_randomness
          [of exampleArgs "[]" "(3 / 4, 1 / 2, 1 / 2)" "newBoid 0 (Vector3 0 0 0) (Vector3 0.5 0 0)"]
  by (simp add: exampleArgs_def exampleParams_def)

text \<open>
  C3. For a maximum speed that is not negative, after a tick the magnitude of the velocity
  is at most the maximum speed plus the magnitude of the random bias as the tick's rescale
  step has left it.
\<close>

theorem speed_bound_with_bias:
  assumes "0 \<le> maxSpeed (arg_simParams args)"
  shows "v3_length (velocity (updateAndMove rl args rs b))
         \<le> maxSpeed (arg_simParams args) + v3_length (randomBias (updateAndMove rl args rs b))"
proof -
  let ?c = "velocity (capSpeed (maxSpeed (arg_simParams args)) (applyRules rl args b))"
  let ?r = "randomBias (updateAndMove rl args rs b)"
  have "v3_length (velocity (updateAndMove rl args rs b)) = v3_length (v3_add ?c ?r)"
    by (simp add: updateAndMove_velocity)
  also have "\<dots> \<le> v3_length ?c + v3_length ?r"
    by (rule v3_triangle)
  also have "\<dots> \<le> maxSpeed (arg_simParams args) + v3_length ?r"
    using capSpeed_bound [OF assms, of "applyRules rl args b"] by simp
  finally show ?thesis .
qed

theorem speed_bound_with_bias_witness:
  "0 \<le> maxSpeed (arg_simParams exampleArgs)
   \<and> v3_length (velocity (updateAndMove [] exampleArgs (3 / 4, 1 / 2, 1 / 2)
        (newBoid 0 (Vector3 0 0 0) (Vector3 0.5 0 0))))
      \<le> maxSpeed (arg_simParams exampleArgs)
        + v3_length (randomBias (updateAndMove [] exampleArgs (3 / 4, 1 / 2, 1 / 2)
            (newBoid 0 (Vector3 0 0 0) (Vector3 0.5 0 0))))"
  using speed_bound_with_bias
          [of exampleArgs "[]" "(3 / 4, 1 / 2, 1 / 2)" "newBoid 0 (Vector3 0 0 0) (Vector3 0.5 0 0)"]
  by (simp add: exampleArgs_def exampleParams_def)

section \<open>Separation and cohesion without weight\<close>

lemma separation_zero:
  "neighbours = [] \<or> snd (separation_loop toOther dropoff thisBoid neighbours (v3_zero, 0)) = 0
   \<Longrightarrow> SeparationRule_calculateVector weight toOther dropoff thisBoid neighbours = Inr v3_zero"
  by (auto simp: SeparationRule_calculateVector_def split: prod.splits)

lemma cohesion_empty:
  "CohesionRule_calculateVector weight toOther dropoff thisBoid [] = Inr v3_zero"
  by (simp add: CohesionRule_calculateVector_def)

lemma cohesion_zero_weight:
  "neighbours \<noteq> [] \<Longrightarrow> snd (cohesion_loop toOther dropoff thisBoid neighbours (v3_zero, 0)) = 0
   \<Longrightarrow> CohesionRule_calculateVector weight toOther dropoff thisBoid neighbours = Inl NonFiniteVector"
  by (auto simp: CohesionRule_calculateVector_def v3_divideScalar_checked_def split: prod.splits)

text \<open>
  C4 holds for the separation rule (\<open>separation_zero\<close>) and for the cohesion rule without
  neighbours (\<open>cohesion_empty\<close>), but the cohesion rule has no guard for a zero weight sum
  (\<open>cohesion_zero_weight\<close>). With the proportional dropoff built for a visibility radius of
  50 and a single neighbour 60 away, the weight sum is zero: the cohesion rule divides by
  it and returns a vector that is not finite, where the separation rule returns zero.
\<close>

theorem cohesion_zero_weight_sum_not_zero_vector:
  "CohesionRule_calculateVector 1 toOther_example (proportionalDropoff 50 1)
     (newBoid 0 (Vector3 0 0 0) (Vector3 0 0 0)) [newBoid 1 (Vector3 60 0 0) (Vector3 0 0 0)]
   = Inl NonFiniteVector
   \<and> SeparationRule_calculateVector 1 toOther_example (proportionalDropoff 50 1)
     (newBoid 0 (Vector3 0 0 0) (Vector3 0 0 0)) [newBoid 1 (Vector3 60 0 0) (Vector3 0 0 0)]
   = Inr v3_zero"
  by (simp add: CohesionRule_calculateVector_def SeparationRule_calculateVector_def
        v3_divideScalar_checked_def
        toOther_example_def proportionalDropoff_def newBoid_def v3_sub_def Let_def)

section \<open>Neighbours\<close>

text \<open>
  C5. For two boids of the collection with different ids, each is among the other's
  neighbours exactly when their distance is strictly below the visibility threshold.
\<close>

theorem neighbours_iff_strictly_within_threshold:
  assumes "a \<in> set (boids s)" "b \<in> set (boids s)" "boid_id a \<noteq> boid_id b"
  shows "(b \<in> set (getBoidNeighbours s a)
            \<longleftrightarrow> v3_distanceTo (position a) (position b) < visibilityThreshold (simParams s))
       \<and> (a \<in> set (getBoidNeighbours s b)
            \<longleftrightarrow> v3_distanceTo (position a) (position b) < visibilityThreshold (simParams s))"
  using assms
  by (auto simp: getBoidNeighbours_def isOtherBoidVisible_def v3_distanceTo_sym [of "position b"])

text \<open>
  In the example the threshold is 25: boids 0 and 1 are exactly 25 apart and do not see
  each other, boids 0 and 2 are 24 apart and do.
\<close>

theorem neighbours_iff_strictly_within_threshold_witness:
  "newBoid 1 (Vector3 25 0 0) (Vector3 0 0 0)
     \<notin> set (getBoidNeighbours exampleSimulation (newBoid 0 (Vector3 0 0 0) (Vector3 0.5 0 0)))
   \<and> newBoid 0 (Vector3 0 0 0) (Vector3 0.5 0 0)
     \<notin> set (getBoidNeighbours exampleSimulation (newBoid 1 (Vector3 25 0 0) (Vector3 0 0 0)))
   \<and> newBoid 2 (Vector3 (- 24) 0 0) (Vector3 0 0 0)
     \<in> set (getBoidNeighbours exampleSimulation (newBoid 0 (Vector3 0 0 0) (Vector3 0.5 0 0)))
   \<and> newBoid 0 (Vector3 0 0 0) (Vector3 0.5 0 0)
     \<in> set (getBoidNeighbours exampleSimulation (newBoid 2 (Vector3 (- 24) 0 0) (Vector3 0 0 0)))"
  using neighbours_iff_strictly_within_threshold
          [of "newBoid 0 (Vector3 0 0 0) (Vector3 0.5 0 0)" exampleSimulation
              "newBoid 1 (Vector3 25 0 0) (Vector3 0 0 0)"]
        neighbours_iff_strictly_within_threshold
          [of "newBoid 0 (Vector3 0 0 0) (Vector3 0.5 0 0)" exampleSimulation
              "newBoid 2 (Vector3 (- 24) 0 0) (Vector3 0 0 0)"]
  by (simp add: exampleSimulation_def exampleParams_def newBoid_def)

section \<open>World lookup\<close>

text \<open>
  C9. A lookup by a name that no world of the registry has is an error; otherwise the
  result is the first world of the registry with that name.
\<close>

theorem getWorldByName_first_match_or_error:
  "(n \<notin> set (getNames ws) \<longrightarrow> getWorldByName ws n = Inl WorldNotFound)
   \<and> (n \<in> set (getNames ws) \<longrightarrow>
        (\<exists>i < length ws. getWorldByName ws n = Inr (ws ! i) \<and> world_name (ws ! i) = n
           \<and> (\<forall>j < i. world_name (ws ! j) \<noteq> n)))"
proof (induction ws)
  case Nil
  show ?case by simp
next
  case (Cons w ws)
  show ?case
  proof (cases "world_name w = n")
    case True
    then have "getWorldByName (w # ws) n = Inr ((w # ws) ! 0)" by simp
    with True show ?thesis by auto
  next
    case False
    show ?thesis
    proof (intro conjI impI)
      assume "n \<notin> set (getNames (w # ws))"
      with Cons False show "getWorldByName (w # ws) n = Inl WorldNotFound" by simp
    next
      assume "n \<in> set (getNames (w # ws))"
      with False have "n \<in> set (getNames ws)" by auto
      with Cons obtain i where i: "i < length ws" "getWorldByName ws n = Inr (ws ! i)"
        "world_name (ws ! i) = n" "\<forall>j < i. world_name (ws ! j) \<noteq> n" by blast
      have "\<forall>j < Suc i. world_name ((w # ws) ! j) \<noteq> n"
        using i(4) False by (auto simp: nth_Cons split: nat.splits)
      with i False show "\<exists>i < length (w # ws). getWorldByName (w # ws) n = Inr ((w # ws) ! i)
          \<and> world_name ((w # ws) ! i) = n \<and> (\<forall>j < i. world_name ((w # ws) ! j) \<noteq> n)"
        by (intro exI [of _ "Suc i"]) simp
    qed
  qed
qed

theorem getWorldByName_first_match_or_error_witness:
  "''Nowhere'' \<notin> set (getNames [worldA, worldB, worldB'])
   \<and> getWorldByName [worldA, worldB, worldB'] ''Nowhere'' = Inl WorldNotFound
   \<and> ''Obstacles'' \<in> set (getNames [worldA, worldB, worldB'])
   \<and> getWorldByName [worldA, worldB, worldB'] ''Obstacles'' = Inr worldB"
  using getWorldByName_first_match_or_error [of "''Nowhere''" "[worldA, worldB, worldB']"]
        getWorldByName_first_match_or_error [of "''Obstacles''" "[worldA, worldB, worldB']"]
  by (simp add: worldA_def worldB_def worldB'_def)

section \<open>Obstacle avoidance\<close>

lemma avoidance_length:
  "v3_length (v3_sub p (Vector3 (basePoint_x c) (vy p) (basePoint_z c)))
   = sqrt ((vx p - basePoint_x c)\<^sup>2 + (vz p - basePoint_z c)\<^sup>2)"
  by (simp add: v3_length_def v3_sub_def power2_eq_square)

lemma avoidance_zero_iff:
  "v3_length (v3_sub p (Vector3 (basePoint_x c) (vy p) (basePoint_z c))) = 0 \<longleftrightarrow> onAxis c p"
  by (simp add: v3_length_zero_iff v3_sub_def onAxis_def)

text \<open>
  The magnitude of the force of a single cylinder: nothing on the axis, where the vector to
  scale has no direction, and else the weight times the sharpness to the power of 10 minus
  the distance from the surface.
\<close>

lemma obstacle_force_magnitude:
  assumes "obstacles_cylinders (oar_world r) = [c]" "0 < oar_SHARPNESS r"
  shows "v3_length (ObstacleAvoidanceRule_calculateVector r b args)
         = \<bar>oar_weight r\<bar> *
           (if onAxis c (position b) then 0
            else oar_SHARPNESS r powr (10 - surfaceDistance_spec c (position b)))"
proof -
  let ?av = "v3_sub (position b) (Vector3 (basePoint_x c) (vy (position b)) (basePoint_z c))"
  let ?d0 = "v3_length ?av - radius c"
  let ?m = "oar_SHARPNESS r powr (- ((if ?d0 < 0 then 0 else ?d0) - 10))"
  have calc: "ObstacleAvoidanceRule_calculateVector r b args
              = v3_multiplyScalar (v3_setLength ?av ?m) (oar_weight r)"
    by (simp add: ObstacleAvoidanceRule_calculateVector_def assms(1) Let_def v3_add_zero_left)
  have sd: "(if ?d0 < 0 then 0 else ?d0) = surfaceDistance_spec c (position b)"
    by (simp add: surfaceDistance_spec_def avoidance_length max_def)
  show ?thesis
  proof (cases "onAxis c (position b)")
    case True
    then have "?av = Vector3 0 0 0"
      using avoidance_zero_iff [of "position b" c] by (simp add: v3_length_zero_iff)
    then show ?thesis
      using True by (simp add: calc v3_setLength_zero v3_length_multiplyScalar)
  next
    case False
    then have "v3_length ?av \<noteq> 0"
      by (simp add: avoidance_zero_iff)
    then have "v3_length (v3_setLength ?av ?m) = \<bar>?m\<bar>"
      by (rule v3_length_setLength)
    then show ?thesis
      using False sd by (simp add: calc v3_length_multiplyScalar)
  qed
qed

text \<open>
  C6, as stated, fails on the axis of the obstacle. With the cylinder of radius 5 at the
  origin, sharpness 3 and weight 10, a boid on the axis and a boid one unit beside it are
  both at surface distance 0, yet the first gets no force and the second a force of
  magnitude \<open>10 * 3 powr 10\<close>.
\<close>

theorem obstacle_force_vanishes_on_axis:
  "surfaceDistance_spec exampleCylinder (position (newBoid 0 (Vector3 0 10 0) (Vector3 0 0 0)))
     \<le> surfaceDistance_spec exampleCylinder (position (newBoid 1 (Vector3 1 10 0) (Vector3 0 0 0)))
   \<and> \<not> v3_length (ObstacleAvoidanceRule_calculateVector exampleRule
            (newBoid 1 (Vector3 1 10 0) (Vector3 0 0 0)) exampleArgs)
        \<le> v3_length (ObstacleAvoidanceRule_calculateVector exampleRule
            (newBoid 0 (Vector3 0 10 0) (Vector3 0 0 0)) exampleArgs)"
proof -
  have cyl: "obstacles_cylinders (oar_world exampleRule) = [exampleCylinder]"
    by (simp add: exampleRule_def worldB_def)
  have pos: "0 < oar_SHARPNESS exampleRule"
    by (simp add: exampleRule_def)
  have on_axis: "v3_length (ObstacleAvoidanceRule_calculateVector exampleRule
            (newBoid 0 (Vector3 0 10 0) (Vector3 0 0 0)) exampleArgs) = 0"
    unfolding obstacle_force_magnitude [OF cyl pos]
    by (simp add: onAxis_def exampleCylinder_def newBoid_def)
  have off_axis: "v3_length (ObstacleAvoidanceRule_calculateVector exampleRule
            (newBoid 1 (Vector3 1 10 0) (Vector3 0 0 0)) exampleArgs) = 10 * 3 powr 10"
    unfolding obstacle_force_magnitude [OF cyl pos]
    by (simp add: onAxis_def surfaceDistance_spec_def exampleCylinder_def newBoid_def
          exampleRule_def)
  have "(0::real) < 10 * 3 powr 10"
    by simp
  then show ?thesis
    unfolding on_axis off_axis
    by (simp add: surfaceDistance_spec_def exampleCylinder_def newBoid_def)
qed

text \<open>
  C6, amended. For a single cylinder and a sharpness of at least 1, and for two boids that
  are not exactly on the axis of the cylinder, the boid that is not farther from the surface
  gets a force that is not smaller.
\<close>

theorem obstacle_force_nonincreasing_off_axis:
  assumes "obstacles_cylinders (oar_world r) = [c]" "1 \<le> oar_SHARPNESS r"
    and "\<not> onAxis c (position b1)" "\<not> onAxis c (position b2)"
    and "surfaceDistance_spec c (position b1) \<le> surfaceDistance_spec c (position b2)"
  shows "v3_length (ObstacleAvoidanceRule_calculateVector r b2 args)
         \<le> v3_length (ObstacleAvoidanceRule_calculateVector r b1 args)"
proof -
  have pos: "0 < oar_SHARPNESS r" using assms(2) by simp
  have "oar_SHARPNESS r powr (10 - surfaceDistance_spec c (position b2))
        \<le> oar_SHARPNESS r powr (10 - surfaceDistance_spec c (position b1))"
    using assms(2,5) by (intro powr_mono) simp_all
  then have "\<bar>oar_weight r\<bar> * oar_SHARPNESS r powr (10 - surfaceDistance_spec c (position b2))
        \<le> \<bar>oar_weight r\<bar> * oar_SHARPNESS r powr (10 - surfaceDistance_spec c (position b1))"
    by (intro mult_left_mono) simp_all
  then show ?thesis
    using assms(3,4) by (simp add: obstacle_force_magnitude [OF assms(1) pos])
qed

theorem obstacle_force_nonincreasing_off_axis_witness:
  "obstacles_cylinders (oar_world exampleRule) = [exampleCylinder]
   \<and> 1 \<le> oar_SHARPNESS exampleRule
   \<and> \<not> onAxis exampleCylinder (Vector3 6 10 0) \<and> \<not> onAxis exampleCylinder (Vector3 7 10 0)
   \<and> surfaceDistance_spec exampleCylinder (Vector3 6 10 0)
       \<le> surfaceDistance_spec exampleCylinder (Vector3 7 10 0)
   \<and> v3_length (ObstacleAvoidanceRule_calculateVector exampleRule
        (newBoid 1 (Vector3 7 10 0) (Vector3 0 0 0)) exampleArgs)
      \<le> v3_length (ObstacleAvoidanceRule_calculateVector exampleRule
        (newBoid 0 (Vector3 6 10 0) (Vector3 0 0 0)) exampleArgs)"
  using obstacle_force_nonincreasing_off_axis
     [of exampleRule exampleCylinder "newBoid 0 (Vector3 6 10 0) (Vector3 0 0 0)"
         "newBoid 1 (Vector3 7 10 0) (Vector3 0 0 0)" exampleArgs]
  by (simp add: exampleRule_def worldB_def onAxis_def surfaceDistance_spec_def
        exampleCylinder_def newBoid_def)

section \<open>Population reconciliation\<close>

lemma generateLoop_done: "d \<le> 0 \<Longrightarrow> generateLoop g gen d s = (d, s)"
  by (subst generateLoop.simps) simp

lemma generateLoop_step:
  "0 < d \<Longrightarrow> generateLoop g gen d s =
     generateLoop g gen (d - 1)
       (s\<lparr>nextBoidId := nextBoidId s + 1,
          boids := boids s @ [g (nextBoidId s) (generatorOptions (simParams s))
                                (gen (nextBoidId s))]\<rparr>)"
  by (subst generateLoop.simps) (simp add: newBoidId_def)

lemma removeLoop_done: "0 \<le> d \<Longrightarrow> removeLoop d s = s"
  by (subst removeLoop.simps) simp

lemma removeLoop_empty: "boids s = [] \<Longrightarrow> removeLoop d s = s"
  by (subst removeLoop.simps) (simp add: pop_def)

lemma removeLoop_step:
  "d < 0 \<Longrightarrow> boids s \<noteq> [] \<Longrightarrow> removeLoop d s = removeLoop (d + 1) (s\<lparr>boids := butlast (boids s)\<rparr>)"
  by (subst removeLoop.simps) (simp add: pop_def)

text \<open>Removing \<open>k\<close> boids leaves the collection without its last \<open>k\<close> elements.\<close>

lemma removeLoop_take:
  "k \<le> length (boids s) \<Longrightarrow>
   removeLoop (- real k) s = s\<lparr>boids := take (length (boids s) - k) (boids s)\<rparr>"
proof (induction k arbitrary: s)
  case 0
  then show ?case by (simp add: removeLoop_done)
next
  case (Suc k)
  then have ne: "boids s \<noteq> []" by auto
  let ?s = "s\<lparr>boids := butlast (boids s)\<rparr>"
  have "removeLoop (- real (Suc k)) s = removeLoop (- real (Suc k) + 1) ?s"
    using ne by (intro removeLoop_step) simp_all
  also have "- real (Suc k) + 1 = - real k" by simp
  also have "removeLoop (- real k) ?s = ?s\<lparr>boids := take (length (boids ?s) - k) (boids ?s)\<rparr>"
    using Suc.prems by (intro Suc.IH) simp
  also have "take (length (boids ?s) - k) (boids ?s) = take (length (boids s) - Suc k) (boids s)"
    by (simp add: butlast_conv_take min_def)
  finally show ?case by simp
qed

text \<open>
  The generating loop runs once for every whole step that the difference lies above zero:
  it appends that many boids, with the next ids, and advances the counter by as much.
\<close>

lemma generateLoop_ceiling:
  "generateLoop g gen d s =
     (d - real (nat \<lceil>d\<rceil>),
      s\<lparr>nextBoidId := nextBoidId s + nat \<lceil>d\<rceil>,
        boids := boids s @
          map (\<lambda>j. g (nextBoidId s + j) (generatorOptions (simParams s)) (gen (nextBoidId s + j)))
            [0..<nat \<lceil>d\<rceil>]\<rparr>)"
proof (induction "nat \<lceil>d\<rceil>" arbitrary: d s)
  case 0
  then have "d \<le> 0" by simp
  with 0 [symmetric] show ?case by (simp add: generateLoop_done)
next
  case (Suc k)
  let ?s = "s\<lparr>nextBoidId := nextBoidId s + 1,
          boids := boids s @ [g (nextBoidId s) (generatorOptions (simParams s))
                                (gen (nextBoidId s))]\<rparr>"
  from Suc.hyps(2) have pos: "0 < d"
    by (metis ceiling_le_zero nat_le_0 not_less Zero_not_Suc)
  from Suc.hyps(2) have k: "k = nat \<lceil>d - 1\<rceil>"
    by simp
  have step: "generateLoop g gen d s = generateLoop g gen (d - 1) ?s"
    using pos by (rule generateLoop_step)
  show ?case
    unfolding step Suc.hyps(1) [OF k] Suc.hyps(2) [symmetric] k [symmetric] map_upt_Suc by simp
qed

text \<open>
  Starting from an empty collection, the reconciliation towards any target leaves as many
  generated boids as the target has whole units; a fractional target makes the loops
  generate one boid more and remove it again.
\<close>

lemma upt_butlast: "butlast (map f [0..<Suc k]) = map f [0..<k]"
  by (simp add: map_butlast [symmetric] del: upt_Suc) simp

lemma updateBoidCount_from_empty:
  assumes "boids s = []"
  shows "updateBoidCount g gen s =
     s\<lparr>nextBoidId := nextBoidId s + nat \<lceil>boidCount (simParams s)\<rceil>,
       boids := map (\<lambda>j. g (nextBoidId s + j) (generatorOptions (simParams s))
                           (gen (nextBoidId s + j)))
                  [0..<nat \<lfloor>boidCount (simParams s)\<rfloor>]\<rparr>"
proof -
  let ?c = "boidCount (simParams s)"
  let ?f = "\<lambda>j. g (nextBoidId s + j) (generatorOptions (simParams s)) (gen (nextBoidId s + j))"
  let ?K = "nat \<lceil>?c\<rceil>"
  let ?s2 = "s\<lparr>nextBoidId := nextBoidId s + ?K, boids := map ?f [0..<?K]\<rparr>"
  have s_eq: "s\<lparr>boids := []\<rparr> = s"
    using assms by (cases s) simp
  show ?thesis
  proof (cases "?c = 0")
    case True
    then show ?thesis
      using assms s_eq by (simp add: updateBoidCount_def)
  next
    case False
    have loop: "generateLoop g gen ?c s = (?c - real ?K, ?s2)"
      unfolding generateLoop_ceiling [of g gen ?c s] using assms by simp
    have u: "updateBoidCount g gen s = removeLoop (?c - real ?K) ?s2"
      using False assms by (simp add: updateBoidCount_def loop)
    consider (neg) "?c < 0" | (whole) "0 < ?c" "?c = real ?K" | (frac) "0 < ?c" "?c \<noteq> real ?K"
      using False by linarith
    then show ?thesis
    proof cases
      case neg
      then have "?K = 0" "nat \<lfloor>?c\<rfloor> = 0"
        by simp_all
      then show ?thesis
        using neg by (simp add: u removeLoop_empty)
    next
      case whole
      then have "nat \<lfloor>?c\<rfloor> = ?K"
        by (metis floor_of_nat nat_int)
      then show ?thesis
        using whole by (simp add: u removeLoop_done)
    next
      case frac
      have up: "?c \<le> real_of_int \<lceil>?c\<rceil>" "real_of_int \<lceil>?c\<rceil> < ?c + 1"
        by linarith+
      have Kpos: "real ?K = real_of_int \<lceil>?c\<rceil>"
        using frac(1) by (simp add: not_le less_imp_le)
      have lt: "?c - real ?K < 0" "0 \<le> ?c - real ?K + 1"
        using up frac(2) Kpos by linarith+
      have fl: "?K = Suc (nat \<lfloor>?c\<rfloor>)"
      proof -
        have "?c \<noteq> real_of_int \<lfloor>?c\<rfloor>"
        proof
          assume e: "?c = real_of_int \<lfloor>?c\<rfloor>"
          then have "\<lceil>?c\<rceil> = \<lfloor>?c\<rfloor>" by (metis ceiling_of_int)
          with e Kpos frac(2) show False by simp
        qed
        then have "\<lceil>?c\<rceil> = \<lfloor>?c\<rfloor> + 1" by (simp add: ceiling_altdef)
        moreover have "0 \<le> \<lfloor>?c\<rfloor>" using frac(1) by simp
        ultimately show ?thesis by (metis Suc_nat_eq_nat_zadd1 add.commute)
      qed
      have ne: "boids ?s2 \<noteq> []"
        unfolding fl by simp
      have "removeLoop (?c - real ?K) ?s2
            = removeLoop (?c - real ?K + 1) (?s2\<lparr>boids := butlast (boids ?s2)\<rparr>)"
        using lt(1) ne by (rule removeLoop_step)
      also have "\<dots> = ?s2\<lparr>boids := butlast (boids ?s2)\<rparr>"
        using lt(2) by (rule removeLoop_done)
      also have "butlast (boids ?s2) = map ?f [0..<nat \<lfloor>?c\<rfloor>]"
        unfolding fl by (simp add: upt_butlast del: upt_Suc)
      finally show ?thesis
        by (simp add: u)
    qed
  qed
qed

text \<open>
  C8. When the target count is a whole number \<open>m\<close> below the number \<open>n\<close> of boids, the
  reconciliation changes nothing but the collection, keeps its first \<open>m\<close> boids as they
  are and drops the last \<open>n - m\<close>. With no boid left the removal loop leaves the state as
  it is, and so does a reconciliation towards a negative target.
\<close>

theorem updateBoidCount_lowered:
  "(boidCount (simParams s) = real m \<and> m < length (boids s) \<longrightarrow>
      updateBoidCount g gen s = s\<lparr>boids := take m (boids s)\<rparr>
      \<and> boids s = boids (updateBoidCount g gen s) @ drop m (boids s)
      \<and> length (drop m (boids s)) = length (boids s) - m)
   \<and> (boids s = [] \<longrightarrow> removeLoop d s = s)
   \<and> (boids s = [] \<and> boidCount (simParams s) < 0 \<longrightarrow> updateBoidCount g gen s = s)"
proof (intro conjI impI)
  assume a: "boidCount (simParams s) = real m \<and> m < length (boids s)"
  let ?k = "length (boids s) - m"
  have d: "boidCount (simParams s) - real (length (boids s)) = - real ?k"
    using a by simp
  have "updateBoidCount g gen s = removeLoop (- real ?k) s"
    using a by (simp add: updateBoidCount_def d generateLoop_done)
  also have "\<dots> = s\<lparr>boids := take (length (boids s) - ?k) (boids s)\<rparr>"
    by (rule removeLoop_take) simp
  also have "length (boids s) - ?k = m"
    using a by simp
  finally show r: "updateBoidCount g gen s = s\<lparr>boids := take m (boids s)\<rparr>" .
  show "boids s = boids (updateBoidCount g gen s) @ drop m (boids s)"
    by (simp add: r)
  show "length (drop m (boids s)) = length (boids s) - m"
    by simp
next
  assume "boids s = []"
  then show "removeLoop d s = s" by (rule removeLoop_empty)
next
  assume a: "boids s = [] \<and> boidCount (simParams s) < 0"
  then show "updateBoidCount g gen s = s"
    by (simp add: updateBoidCount_def generateLoop_done removeLoop_empty)
qed

text \<open>
  In the example, a target of 2 for the three boids leaves boids 0 and 1; a removal from
  the empty collection changes nothing.
\<close>

theorem updateBoidCount_lowered_witness:
  "updateBoidCount boidFactory exampleGen (exampleSimulation\<lparr>simParams := exampleParams\<lparr>boidCount := 2\<rparr>\<rparr>)
     = exampleSimulation\<lparr>simParams := exampleParams\<lparr>boidCount := 2\<rparr>,
         boids := [newBoid 0 (Vector3 0 0 0) (Vector3 0.5 0 0),
                   newBoid 1 (Vector3 25 0 0) (Vector3 0 0 0)]\<rparr>
   \<and> removeLoop (- 3) (exampleSimulation\<lparr>boids := []\<rparr>) = exampleSimulation\<lparr>boids := []\<rparr>"
proof -
  let ?s = "exampleSimulation\<lparr>simParams := exampleParams\<lparr>boidCount := 2\<rparr>\<rparr>"
  have h: "boidCount (simParams ?s) = real 2 \<and> 2 < length (boids ?s)"
    by (simp add: exampleSimulation_def)
  have "updateBoidCount boidFactory exampleGen ?s = ?s\<lparr>boids := take 2 (boids ?s)\<rparr>"
    using updateBoidCount_lowered [where s = ?s and m = 2 and g = boidFactory and gen = exampleGen] h
    by blast
  moreover have "take 2 (boids ?s) = [newBoid 0 (Vector3 0 0 0) (Vector3 0.5 0 0),
                   newBoid 1 (Vector3 25 0 0) (Vector3 0 0 0)]"
    by (simp add: exampleSimulation_def)
  moreover have "removeLoop (- 3) (exampleSimulation\<lparr>boids := []\<rparr>) = exampleSimulation\<lparr>boids := []\<rparr>"
    using updateBoidCount_lowered [where s = "exampleSimulation\<lparr>boids := []\<rparr>" and d = "- 3"]
    by simp
  ultimately show ?thesis by simp
qed

section \<open>World switch\<close>

text \<open>
  Neither the reconciliation of the population nor the update of a boid touches the world,
  the parameters or the rules.
\<close>

lemma sameWorld_refl: "sameWorld s s"
  by (simp add: sameWorld_def)

lemma sameWorld_trans: "sameWorld s s' \<Longrightarrow> sameWorld s' s'' \<Longrightarrow> sameWorld s s''"
  by (simp add: sameWorld_def)

lemma generateLoop_sameWorld: "sameWorld s (snd (generateLoop g gen d s))"
  by (simp add: generateLoop_ceiling sameWorld_def)

lemma removeLoop_sameWorld: "sameWorld s (removeLoop d s)"
proof (induction d s rule: removeLoop.induct)
  case (1 d s)
  show ?case
  proof (cases "d < 0 \<and> boids s \<noteq> []")
    case True
    then have "sameWorld (s\<lparr>boids := butlast (boids s)\<rparr>)
                 (removeLoop (d + 1) (s\<lparr>boids := butlast (boids s)\<rparr>))"
      by (intro "1.IH" [of "Some (last (boids s))" "butlast (boids s)" "last (boids s)"])
         (simp_all add: pop_def)
    then show ?thesis
      using True by (simp add: removeLoop_step sameWorld_def)
  next
    case False
    then have "removeLoop d s = s"
      by (auto simp: removeLoop_done removeLoop_empty not_less)
    then show ?thesis by (simp add: sameWorld_refl)
  qed
qed

lemma updateBoidCount_sameWorld: "sameWorld s (updateBoidCount g gen s)"
proof (cases "boidCount (simParams s) = real (length (boids s))")
  case True
  then show ?thesis by (simp add: updateBoidCount_def sameWorld_refl)
next
  case False
  obtain d s1 where gl: "generateLoop g gen (boidCount (simParams s) - real (length (boids s))) s = (d, s1)"
    by (cases "generateLoop g gen (boidCount (simParams s) - real (length (boids s))) s")
  then have "sameWorld s s1"
    using generateLoop_sameWorld [of s g gen "boidCount (simParams s) - real (length (boids s))"]
    by simp
  moreover have "sameWorld s1 (removeLoop d s1)"
    by (rule removeLoop_sameWorld)
  ultimately show ?thesis
    using False gl by (simp add: updateBoidCount_def sameWorld_trans)
qed

lemma updateBoid_sameWorld: "sameWorld s (updateBoid rnd i s)"
  by (simp add: updateBoid_def sameWorld_def Let_def)

lemma fold_updateBoid_sameWorld: "sameWorld s (fold (updateBoid rnd) is s)"
proof (induction "is" arbitrary: s)
  case Nil
  show ?case by (simp add: sameWorld_refl)
next
  case (Cons i "is")
  have "sameWorld s (updateBoid rnd i s)" by (rule updateBoid_sameWorld)
  moreover have "sameWorld (updateBoid rnd i s) (fold (updateBoid rnd) is (updateBoid rnd i s))"
    by (rule Cons.IH)
  ultimately show ?case by (simp add: sameWorld_trans)
qed

lemma getWorldByName_name: "getWorldByName ws n = Inr w \<Longrightarrow> world_name w = n"
  by (induction ws) (auto split: if_splits)

lemma reloadWorld_found:
  "getWorldByName (worlds s) (worldName (simParams s)) = Inr w \<Longrightarrow>
   reloadWorld s =
     Inr (s\<lparr>simParams := (simParams s)\<lparr>worldDimens := get3DBoundaries w\<rparr>,
            obstacleAvoidRule := (obstacleAvoidRule s)\<lparr>oar_world := w\<rparr>,
            boids := [],
            currentWorldName := worldName (simParams s),
            currentRendering := rendering (simParams s)\<rparr>)"
  by (simp add: reloadWorld_def setWorld_def)

text \<open>
  C7. When the selected world (or the rendering mode) differs from the current one at the
  start of a tick, either the lookup of the world fails and the tick ends with that error
  before any boid is updated, or the world is reloaded first: the tick is the
  reconciliation and the boid updates on the reloaded state, and before each boid update
  the bounds in the parameters, the world that the obstacle-avoidance rule holds (and with
  it the obstacle list) and the current world name are those of the newly selected world.
\<close>

theorem world_switch_is_atomic:
  assumes "currentWorldName s \<noteq> worldName (simParams s)
           \<or> currentRendering s \<noteq> rendering (simParams s)"
  shows "case getWorldByName (worlds s) (worldName (simParams s)) of
           Inl e \<Rightarrow> update g gen rnd s = Inl e
         | Inr w \<Rightarrow>
             (\<exists>s1. reloadWorld s = Inr s1
                \<and> update g gen rnd s
                    = Inr (fold (updateBoid rnd) [0..<length (boids (updateBoidCount g gen s1))]
                             (updateBoidCount g gen s1))
                \<and> (\<forall>k. worldDimens (simParams (fold (updateBoid rnd) [0..<k] (updateBoidCount g gen s1)))
                          = get3DBoundaries w
                      \<and> oar_world (obstacleAvoidRule (fold (updateBoid rnd) [0..<k] (updateBoidCount g gen s1)))
                          = w
                      \<and> currentWorldName (fold (updateBoid rnd) [0..<k] (updateBoidCount g gen s1))
                          = world_name w
                      \<and> worldName (simParams (fold (updateBoid rnd) [0..<k] (updateBoidCount g gen s1)))
                          = world_name w))"
proof (cases "getWorldByName (worlds s) (worldName (simParams s))")
  case (Inl e)
  then show ?thesis
    using assms by (auto simp: update_def reloadIfNeeded_def reloadWorld_def)
next
  case (Inr w)
  let ?s1 = "s\<lparr>simParams := (simParams s)\<lparr>worldDimens := get3DBoundaries w\<rparr>,
            obstacleAvoidRule := (obstacleAvoidRule s)\<lparr>oar_world := w\<rparr>,
            boids := [],
            currentWorldName := worldName (simParams s),
            currentRendering := rendering (simParams s)\<rparr>"
  have r: "reloadWorld s = Inr ?s1"
    using Inr by (rule reloadWorld_found)
  have n: "world_name w = worldName (simParams s)"
    using Inr by (rule getWorldByName_name)
  have u: "update g gen rnd s
        = Inr (fold (updateBoid rnd) [0..<length (boids (updateBoidCount g gen ?s1))]
                 (updateBoidCount g gen ?s1))"
    using assms r by (auto simp: update_def reloadIfNeeded_def Let_def)
  have inv: "sameWorld ?s1 (fold (updateBoid rnd) [0..<k] (updateBoidCount g gen ?s1))" for k
    using updateBoidCount_sameWorld [of ?s1 g gen]
      fold_updateBoid_sameWorld [of "updateBoidCount g gen ?s1" rnd "[0..<k]"]
    by (rule sameWorld_trans)
  have "worldDimens (simParams (fold (updateBoid rnd) [0..<k] (updateBoidCount g gen ?s1)))
            = get3DBoundaries w
        \<and> oar_world (obstacleAvoidRule (fold (updateBoid rnd) [0..<k] (updateBoidCount g gen ?s1)))
            = w
        \<and> currentWorldName (fold (updateBoid rnd) [0..<k] (updateBoidCount g gen ?s1))
            = world_name w
        \<and> worldName (simParams (fold (updateBoid rnd) [0..<k] (updateBoidCount g gen ?s1)))
            = world_name w" for k
    using inv [of k] n by (simp add: sameWorld_def)
  with r u show ?thesis
    unfolding Inr by simp
qed

text \<open>
  In the example the selection changes from the world without obstacles to the first world
  named Obstacles: the tick ends with that world's bounds and with that world in the rule.
\<close>

theorem world_switch_is_atomic_witness:
  "currentWorldName (exampleSimulation\<lparr>simParams := exampleParams\<lparr>worldName := ''Obstacles'', boidCount := 2\<rparr>\<rparr>)
     \<noteq> worldName (simParams (exampleSimulation\<lparr>simParams := exampleParams\<lparr>worldName := ''Obstacles'', boidCount := 2\<rparr>\<rparr>))
   \<and> (\<exists>s'. update boidFactory exampleGen (\<lambda>i. (1 / 2, 1 / 2, 1 / 2))
          (exampleSimulation\<lparr>simParams := exampleParams\<lparr>worldName := ''Obstacles'', boidCount := 2\<rparr>\<rparr>) = Inr s'
        \<and> worldDimens (simParams s') = smallBounds
        \<and> oar_world (obstacleAvoidRule s') = worldB
        \<and> currentWorldName s' = ''Obstacles'')"
proof -
  let ?s = "exampleSimulation\<lparr>simParams := exampleParams\<lparr>worldName := ''Obstacles'', boidCount := 2\<rparr>\<rparr>"
  have h: "currentWorldName ?s \<noteq> worldName (simParams ?s)"
    by (simp add: exampleSimulation_def exampleParams_def)
  have l: "getWorldByName (worlds ?s) (worldName (simParams ?s)) = Inr worldB"
    by (simp add: exampleSimulation_def exampleParams_def worldA_def worldB_def)
  have w: "get3DBoundaries worldB = smallBounds" "world_name worldB = ''Obstacles''"
    by (simp_all add: worldB_def)
  from world_switch_is_atomic
         [where s = ?s and g = boidFactory and gen = exampleGen and rnd = "\<lambda>i. (1 / 2, 1 / 2, 1 / 2)"] h
  show ?thesis
    unfolding l sum.case w by blast
qed

section \<open>A world switch and the population\<close>

lemma boid_id_generate: "boid_id (generateWithRandomPosAndVel i pb rs) = i"
  by (simp add: generateWithRandomPosAndVel_def newBoid_def split: prod.splits)

lemma handsIdOnD: "handsIdOn g \<Longrightarrow> boid_id (g i opts rs) = i"
  unfolding handsIdOn_def by blast

lemma handsIdOn_boidFactory: "handsIdOn boidFactory"
  by (simp add: handsIdOn_def boidFactory_def boid_id_generate)

lemma upt_as_shifted_map: "map (\<lambda>j. n + j) [0..<m] = [n..<n + m]"
  using map_add_upt [of n m] by (simp add: add.commute)

lemma boid_id_updateAndMove: "boid_id (updateAndMove rl args rs b) = boid_id b"
  by (cases rs)
     (simp add: updateAndMove_def move_def pointInDirection_def addRandomnessToVelocity_def
        updateRandomBias_def capSpeed_def applyRules_velocityAfter Let_def)

text \<open>
  The ids stay below the counter throughout a run: the state the simulation starts in has
  no boids, and every step of a tick keeps the property, for a generator that hands the id
  on to the boid it makes.
\<close>

lemma idsBelowCounter_initial: "boids s = [] \<Longrightarrow> idsBelowCounter s"
  by (simp add: idsBelowCounter_def)

lemma generateLoop_ids:
  assumes "handsIdOn g" "idsBelowCounter s"
  shows "idsBelowCounter (snd (generateLoop g gen d s))"
proof -
  let ?K = "nat \<lceil>d\<rceil>"
  let ?f = "\<lambda>j. g (nextBoidId s + j) (generatorOptions (simParams s)) (gen (nextBoidId s + j))"
  have "boid_id b < nextBoidId s + ?K" if "b \<in> set (boids s @ map ?f [0..<?K])" for b
  proof -
    from that consider "b \<in> set (boids s)" | j where "j < ?K" "b = ?f j"
      by auto
    then show ?thesis
    proof cases
      case 1
      with assms(2) show ?thesis by (simp add: idsBelowCounter_def trans_less_add1)
    next
      case 2
      then show ?thesis by (simp add: handsIdOnD [OF assms(1)])
    qed
  qed
  then show ?thesis
    by (simp add: generateLoop_ceiling idsBelowCounter_def)
qed

lemma removeLoop_ids: "idsBelowCounter s \<Longrightarrow> idsBelowCounter (removeLoop d s)"
proof (induction d s rule: removeLoop.induct)
  case (1 d s)
  show ?case
  proof (cases "d < 0 \<and> boids s \<noteq> []")
    case True
    have "idsBelowCounter (s\<lparr>boids := butlast (boids s)\<rparr>)"
      using "1.prems" by (auto simp: idsBelowCounter_def dest: in_set_butlastD)
    then have "idsBelowCounter (removeLoop (d + 1) (s\<lparr>boids := butlast (boids s)\<rparr>))"
      using True
      by (intro "1.IH" [of "Some (last (boids s))" "butlast (boids s)" "last (boids s)"])
         (simp_all add: pop_def)
    then show ?thesis
      using True by (simp add: removeLoop_step)
  next
    case False
    then have "removeLoop d s = s"
      by (auto simp: removeLoop_done removeLoop_empty not_less)
    then show ?thesis using "1.prems" by simp
  qed
qed

lemma updateBoidCount_ids:
  assumes "handsIdOn g" "idsBelowCounter s"
  shows "idsBelowCounter (updateBoidCount g gen s)"
proof (cases "boidCount (simParams s) = real (length (boids s))")
  case True
  then show ?thesis using assms(2) by (simp add: updateBoidCount_def)
next
  case False
  obtain d s1 where gl: "generateLoop g gen (boidCount (simParams s) - real (length (boids s))) s = (d, s1)"
    by (cases "generateLoop g gen (boidCount (simParams s) - real (length (boids s))) s")
  then have "idsBelowCounter s1"
    using generateLoop_ids
            [where gen = gen and d = "boidCount (simParams s) - real (length (boids s))", OF assms]
    by simp
  then have "idsBelowCounter (removeLoop d s1)"
    by (rule removeLoop_ids)
  then show ?thesis
    using False gl by (simp add: updateBoidCount_def)
qed

lemma updateBoid_ids: "idsBelowCounter s \<Longrightarrow> idsBelowCounter (updateBoid rnd i s)"
proof (cases "i < length (boids s)")
  case True
  assume inv: "idsBelowCounter s"
  let ?b = "updateAndMove (map (calculateVector_of s) (rules s))
              \<lparr>arg_neighbours = getBoidNeighbours s (boids s ! i), arg_simParams = simParams s\<rparr>
              (rnd i) (boids s ! i)"
  have "boid_id ?b < nextBoidId s"
    using inv True by (simp add: boid_id_updateAndMove idsBelowCounter_def)
  moreover have "set ((boids s)[i := ?b]) \<subseteq> insert ?b (set (boids s))"
    by (rule set_update_subset_insert)
  ultimately have "boid_id b < nextBoidId s" if "b \<in> set ((boids s)[i := ?b])" for b
    using that inv by (auto simp: idsBelowCounter_def)
  then show ?thesis
    by (simp add: updateBoid_def idsBelowCounter_def Let_def)
next
  case False
  assume inv: "idsBelowCounter s"
  from False have "length (boids s) \<le> i" by simp
  then have "(boids s)[i := x] = boids s" for x
    by (rule list_update_beyond)
  with inv show ?thesis
    by (simp add: updateBoid_def idsBelowCounter_def Let_def)
qed

lemma fold_updateBoid_ids: "idsBelowCounter s \<Longrightarrow> idsBelowCounter (fold (updateBoid rnd) is s)"
  by (induction "is" arbitrary: s) (simp_all add: updateBoid_ids)

lemma update_ids:
  assumes "handsIdOn g" "idsBelowCounter s"
    and "update g gen rnd s = Inr s'"
  shows "idsBelowCounter s'"
proof -
  obtain s1 where r: "reloadIfNeeded s = Inr s1"
    using assms(3) by (auto simp: update_def split: sum.splits)
  have "idsBelowCounter s1"
    using r assms(2)
    by (auto simp: reloadIfNeeded_def reloadWorld_def idsBelowCounter_def
          split: if_splits sum.splits)
  then have "idsBelowCounter (updateBoidCount g gen s1)"
    by (rule updateBoidCount_ids [OF assms(1)])
  then have "idsBelowCounter (fold (updateBoid rnd) [0..<length (boids (updateBoidCount g gen s1))]
                (updateBoidCount g gen s1))"
    by (rule fold_updateBoid_ids)
  then show ?thesis
    using assms(3) r by (simp add: update_def Let_def)
qed

text \<open>
  C10. When the lookup of the selected world succeeds, a reload empties the collection and
  leaves the id counter as it is. The reconciliation that follows builds the collection
  anew, for any target count: as many boids as the target has whole units, each made by the
  generator from the next id, the options with the bounds of the new world, and the samples
  drawn for that id. For a generator that hands the id on, and ids below the counter before
  the reload, the new ids are the consecutive ones from the counter onwards, none of them
  the id of a boid from before the reload, and the ids lie below the counter again. With
  the factory of the boid class as the generator, every new boid has a position drawn from
  the bounds of the new world, a velocity drawn from the default ranges, no random bias and
  no rotation. Nothing of a boid from before the reload enters the new collection.
\<close>

theorem reloadWorld_discards_population:
  assumes "getWorldByName (worlds s) (worldName (simParams s)) = Inr w"
    and "handsIdOn g"
    and "idsBelowCounter s"
  shows "\<exists>s'. reloadWorld s = Inr s' \<and> boids s' = [] \<and> nextBoidId s' = nextBoidId s
           \<and> boids (updateBoidCount g gen s')
               = map (\<lambda>j. g (nextBoidId s + j)
                            (generatorOptions ((simParams s)\<lparr>worldDimens := get3DBoundaries w\<rparr>))
                            (gen (nextBoidId s + j)))
                   [0..<nat \<lfloor>boidCount (simParams s)\<rfloor>]
           \<and> map boid_id (boids (updateBoidCount g gen s'))
               = [nextBoidId s..<nextBoidId s + nat \<lfloor>boidCount (simParams s)\<rfloor>]
           \<and> (\<forall>b' \<in> set (boids (updateBoidCount g gen s')). \<forall>b \<in> set (boids s).
                 boid_id b' \<noteq> boid_id b)
           \<and> idsBelowCounter (updateBoidCount g gen s')
           \<and> (g = boidFactory \<longrightarrow>
                boids (updateBoidCount g gen s')
                  = map (\<lambda>j. case gen (nextBoidId s + j) of
                         ((r1, r2, r3), (r4, r5, r6)) \<Rightarrow>
                           \<lparr>boid_id = nextBoidId s + j,
                            position =
                              Vector3
                                (r1 * (xMax (get3DBoundaries w) - xMin (get3DBoundaries w))
                                   + xMin (get3DBoundaries w))
                                (r2 * (yMax (get3DBoundaries w) - yMin (get3DBoundaries w))
                                   + yMin (get3DBoundaries w))
                                (r3 * (zMax (get3DBoundaries w) - zMin (get3DBoundaries w))
                                   + zMin (get3DBoundaries w)),
                            velocity = Vector3 (r4 * 0.4 - 0.2) (r5 * 0.04 - 0.02) (r6 * 0.4 - 0.2),
                            randomBias = Vector3 0 0 0,
                            rotation = (0, 0)\<rparr>)
                      [0..<nat \<lfloor>boidCount (simParams s)\<rfloor>])"
proof -
  let ?s1 = "s\<lparr>simParams := (simParams s)\<lparr>worldDimens := get3DBoundaries w\<rparr>,
            obstacleAvoidRule := (obstacleAvoidRule s)\<lparr>oar_world := w\<rparr>,
            boids := [],
            currentWorldName := worldName (simParams s),
            currentRendering := rendering (simParams s)\<rparr>"
  let ?opts = "generatorOptions ((simParams s)\<lparr>worldDimens := get3DBoundaries w\<rparr>)"
  let ?f = "\<lambda>j. g (nextBoidId s + j) ?opts (gen (nextBoidId s + j))"
  let ?m = "nat \<lfloor>boidCount (simParams s)\<rfloor>"
  have r: "reloadWorld s = Inr ?s1"
    using assms(1) by (rule reloadWorld_found)
  have "boids ?s1 = []" by simp
  from updateBoidCount_from_empty [OF this, of g gen]
  have bs: "boids (updateBoidCount g gen ?s1) = map ?f [0..<?m]"
    by simp
  have ids: "map boid_id (map ?f [0..<?m]) = [nextBoidId s..<nextBoidId s + ?m]"
    by (simp add: o_def handsIdOnD [OF assms(2)] upt_as_shifted_map)
  have fresh: "\<forall>b' \<in> set (map ?f [0..<?m]). \<forall>b \<in> set (boids s). boid_id b' \<noteq> boid_id b"
    using assms(3) by (auto simp: handsIdOnD [OF assms(2)] idsBelowCounter_def)
  have inv: "idsBelowCounter (updateBoidCount g gen ?s1)"
    by (rule updateBoidCount_ids [OF assms(2)]) (simp add: idsBelowCounter_def)
  have explicit: "boids (updateBoidCount g gen ?s1)
                  = map (\<lambda>j. case gen (nextBoidId s + j) of
                         ((r1, r2, r3), (r4, r5, r6)) \<Rightarrow>
                           \<lparr>boid_id = nextBoidId s + j,
                            position =
                              Vector3
                                (r1 * (xMax (get3DBoundaries w) - xMin (get3DBoundaries w))
                                   + xMin (get3DBoundaries w))
                                (r2 * (yMax (get3DBoundaries w) - yMin (get3DBoundaries w))
                                   + yMin (get3DBoundaries w))
                                (r3 * (zMax (get3DBoundaries w) - zMin (get3DBoundaries w))
                                   + zMin (get3DBoundaries w)),
                            velocity = Vector3 (r4 * 0.4 - 0.2) (r5 * 0.04 - 0.02) (r6 * 0.4 - 0.2),
                            randomBias = Vector3 0 0 0,
                            rotation = (0, 0)\<rparr>)
                      [0..<?m]"
    if "g = boidFactory"
    unfolding bs
    by (intro map_cong [OF refl])
       (simp add: that boidFactory_def generateWithRandomPosAndVel_def newBoid_def
          generatorOptions_def v3_zero_def split: prod.splits)
  show ?thesis
    using r bs ids fresh inv explicit
    by (intro exI [of _ ?s1]) (simp del: map_map)
qed

text \<open>
  In the example the selection changes to the first world named Obstacles with a target of
  2.5: the three boids with the ids 0 to 2 are gone, and the two new boids have the ids 3
  and 4 and, for samples of one half, the centre of the new bounds as their position.
\<close>

theorem reloadWorld_discards_population_witness:
  "getWorldByName
      (worlds (exampleSimulation\<lparr>simParams := exampleParams\<lparr>worldName := ''Obstacles'', boidCount := 2.5\<rparr>\<rparr>))
      ''Obstacles'' = Inr worldB
   \<and> handsIdOn boidFactory
   \<and> idsBelowCounter (exampleSimulation\<lparr>simParams := exampleParams\<lparr>worldName := ''Obstacles'', boidCount := 2.5\<rparr>\<rparr>)
   \<and> (\<exists>s'. reloadWorld
               (exampleSimulation\<lparr>simParams := exampleParams\<lparr>worldName := ''Obstacles'', boidCount := 2.5\<rparr>\<rparr>)
             = Inr s'
          \<and> boids s' = []
          \<and> boids (updateBoidCount boidFactory exampleGen s')
              = [\<lparr>boid_id = 3, position = Vector3 0 25 0, velocity = Vector3 0 0 0,
                  randomBias = Vector3 0 0 0, rotation = (0, 0)\<rparr>,
                 \<lparr>boid_id = 4, position = Vector3 0 25 0, velocity = Vector3 0 0 0,
                  randomBias = Vector3 0 0 0, rotation = (0, 0)\<rparr>])"
proof -
  let ?s = "exampleSimulation\<lparr>simParams := exampleParams\<lparr>worldName := ''Obstacles'', boidCount := 2.5\<rparr>\<rparr>"
  have l: "getWorldByName (worlds ?s) (worldName (simParams ?s)) = Inr worldB"
    by (simp add: exampleSimulation_def exampleParams_def worldA_def worldB_def)
  have i: "idsBelowCounter ?s"
    by (simp add: idsBelowCounter_def exampleSimulation_def newBoid_def)
  have n: "nextBoidId ?s = 3" "worldName (simParams ?s) = ''Obstacles''"
    "nat \<lfloor>boidCount (simParams ?s)\<rfloor> = 2"
    by (simp_all add: exampleSimulation_def exampleParams_def)
  have e: "[0..<2] = [0, Suc 0]"
    by (simp add: upt_rec)
  from reloadWorld_discards_population [where gen = exampleGen, OF l handsIdOn_boidFactory i]
  obtain s' where s': "reloadWorld ?s = Inr s'" "boids s' = []"
    "boids (updateBoidCount boidFactory exampleGen s')
                  = map (\<lambda>j. case exampleGen (nextBoidId ?s + j) of
                         ((r1, r2, r3), (r4, r5, r6)) \<Rightarrow>
                           \<lparr>boid_id = nextBoidId ?s + j,
                            position =
                              Vector3
                                (r1 * (xMax (get3DBoundaries worldB) - xMin (get3DBoundaries worldB))
                                   + xMin (get3DBoundaries worldB))
                                (r2 * (yMax (get3DBoundaries worldB) - yMin (get3DBoundaries worldB))
                                   + yMin (get3DBoundaries worldB))
                                (r3 * (zMax (get3DBoundaries worldB) - zMin (get3DBoundaries worldB))
                                   + zMin (get3DBoundaries worldB)),
                            velocity = Vector3 (r4 * 0.4 - 0.2) (r5 * 0.04 - 0.02) (r6 * 0.4 - 0.2),
                            randomBias = Vector3 0 0 0,
                            rotation = (0, 0)\<rparr>)
                      [0..<nat \<lfloor>boidCount (simParams ?s)\<rfloor>]"
    by blast
  have "boids (updateBoidCount boidFactory exampleGen s')
              = [\<lparr>boid_id = 3, position = Vector3 0 25 0, velocity = Vector3 0 0 0,
                  randomBias = Vector3 0 0 0, rotation = (0, 0)\<rparr>,
                 \<lparr>boid_id = 4, position = Vector3 0 25 0, velocity = Vector3 0 0 0,
                  randomBias = Vector3 0 0 0, rotation = (0, 0)\<rparr>]"
    unfolding s'(3) n e
    by (simp add: exampleGen_def worldB_def smallBounds_def)
  with l i handsIdOn_boidFactory s'(1,2) show ?thesis
    unfolding n by blast
qed

end
